theory Spec2Isabelle
  imports Main "HOL-Library.Sublist" "HOL-Library.Monad_Syntax"
begin

section \<open>Workflow state: Python values, dicts and the heap of dict objects\<close>

text \<open>
  The workflow state of the repository is a Python \<^verbatim>\<open>dict\<close> from string keys to values
  (\<^verbatim>\<open>Dict[str, Any]\<close>).  The values the orchestration code reads and writes are strings,
  integers, booleans and \<^verbatim>\<open>None\<close>.  Strings are byte lists; a non-ASCII character
  of a source literal is written as its UTF-8 bytes.
\<close>

datatype pyval = PNone | PBool bool | PInt int | PStr string

text \<open>Python's \<^verbatim>\<open>==\<close> on these values: \<^verbatim>\<open>bool\<close> is a subclass of \<^verbatim>\<open>int\<close>,
  so \<^verbatim>\<open>True == 1\<close>; values of unrelated types are unequal.\<close>

fun py_eq :: "pyval \<Rightarrow> pyval \<Rightarrow> bool" where
  "py_eq PNone PNone = True"
| "py_eq (PBool a) (PBool b) = (a = b)"
| "py_eq (PInt a) (PInt b) = (a = b)"
| "py_eq (PStr a) (PStr b) = (a = b)"
| "py_eq (PBool a) (PInt b) = ((if a then 1 else 0) = b)"
| "py_eq (PInt a) (PBool b) = (a = (if b then 1 else 0))"
| "py_eq _ _ = False"


text \<open>Decimal rendering of integers, as \<^verbatim>\<open>str\<close> and f-strings produce it.\<close>

definition digit_char :: "nat \<Rightarrow> char" where
  "digit_char n = ''0123456789'' ! (n mod 10)"

function show_nat :: "nat \<Rightarrow> string" where
  "show_nat n = (if n < 10 then [digit_char n] else show_nat (n div 10) @ [digit_char n])"
  by pat_completeness auto
termination
  by (relation "measure id") auto

declare show_nat.simps [simp del]

definition show_int :: "int \<Rightarrow> string" where
  "show_int i = (if i < 0 then CHR ''-'' # show_nat (nat (- i)) else show_nat (nat i))"

text \<open>\<^verbatim>\<open>str(v)\<close>, which is also what an f-string placeholder \<^verbatim>\<open>{v}\<close> inserts.\<close>

fun py_str :: "pyval \<Rightarrow> string" where
  "py_str PNone = ''None''"
| "py_str (PBool b) = (if b then ''True'' else ''False'')"
| "py_str (PInt i) = show_int i"
| "py_str (PStr s) = s"

type_synonym dict = "string \<rightharpoonup> pyval"

text \<open>\<^verbatim>\<open>d.get(k)\<close> gives \<^verbatim>\<open>None\<close> for an absent key, \<^verbatim>\<open>d.get(k, v)\<close> gives \<^verbatim>\<open>v\<close>.\<close>

definition dict_get :: "dict \<Rightarrow> string \<Rightarrow> pyval" where
  "dict_get d k = (case d k of None \<Rightarrow> PNone | Some v \<Rightarrow> v)"


text \<open>\<^verbatim>\<open>d.update({k1: v1, k2: v2, ...})\<close>: the entries are stored in the order of the
  literal, so that of two entries with the same key the later one stays.\<close>

definition dict_update :: "dict \<Rightarrow> (string \<times> pyval) list \<Rightarrow> dict" where
  "dict_update d kvs = fold (\<lambda>(k, v) m. m(k \<mapsto> v)) kvs d"

text \<open>
  Dicts are mutable objects that the caller, the retry wrapper and the wrapped agent share:
  every agent of the repository starts with \<^verbatim>\<open>state = input\<close>, writes into that object and
  returns it.  A state variable of the code is therefore a reference, and the contents are
  read from a heap.  The component \<open>ext\<close> stands for everything else an agent can read or
  change (its own attributes, the file system, remote services).
\<close>

type_synonym ref = nat

record 'e world =
  heap :: "ref \<Rightarrow> dict"
  ext :: 'e

text \<open>An exception of class \<^verbatim>\<open>Exception\<close>, which is what the handlers of the code
  (\<^verbatim>\<open>except Exception\<close>) take: the name of its class and its message.  The signals of the
  interpreter that are not of that class (\<^verbatim>\<open>KeyboardInterrupt\<close>, \<^verbatim>\<open>SystemExit\<close>) end the
  process and are not part of the model.\<close>

datatype pyexc = PyExc string string


text \<open>
  A step is an object with \<^verbatim>\<open>invoke(state) -> Dict[str, Any]\<close>.  An invocation gets the
  reference of the state and the world; it either raises (\<open>Inl\<close>) or returns the reference
  of a dict (\<open>Inr\<close>), and leaves a new world.
\<close>

type_synonym 'e step = "ref \<Rightarrow> 'e world \<Rightarrow> (pyexc + ref) \<times> 'e world"

section \<open>RetryAgent\<close>

text \<open>The attributes of the object.  \<open>max_retries\<close> is any integer.  \<open>retry_delay\<close> is a
  duration that is not negative, counted in whole units (the driver passes \<^verbatim>\<open>2.0\<close>).\<close>

record 'e RetryAgent =
  target_agent :: "'e step"
  max_retries :: int
  retry_delay :: nat
  failure_key :: string
  success_value :: pyval

text \<open>
  What \<^verbatim>\<open>_run\<close> does besides computing its result is recorded as a list of events: every
  call of \<^verbatim>\<open>self._target_agent.invoke\<close> with its argument, its outcome and the world it
  left, and every call of \<^verbatim>\<open>time.sleep\<close> with the delay.  Console output is not recorded.
\<close>

datatype 'e event = Invoke ref "pyexc + ref" "'e world" | Sleep nat

datatype loop_exit = Succeeded ref | Exhausted ref

text \<open>The \<^verbatim>\<open>while attempt < self._max_retries\<close> loop of \<^verbatim>\<open>_run\<close>, from a value of
  \<open>attempt\<close> and of the variable \<open>state\<close>.  \<open>Succeeded\<close> is the \<^verbatim>\<open>return state\<close> inside the
  loop, \<open>Exhausted\<close> the exit through the loop condition.\<close>

function retry_loop ::
  "'e RetryAgent \<Rightarrow> int \<Rightarrow> ref \<Rightarrow> 'e world \<Rightarrow> loop_exit \<times> 'e world \<times> 'e event list" where
  "retry_loop self attempt state w =
     (if attempt < max_retries self then
        (case target_agent self state w of
           (Inr state', w') \<Rightarrow>
             if py_eq (dict_get (heap w' state') (failure_key self)) (success_value self)
             then (Succeeded state', w', [Invoke state (Inr state') w'])
             else (case retry_loop self (attempt + 1) state' w' of
                     (x, w'', tr) \<Rightarrow>
                       (x, w'', Invoke state (Inr state') w' # Sleep (retry_delay self) # tr))
         | (Inl e, w') \<Rightarrow>
             (case retry_loop self (attempt + 1) state w' of
                (x, w'', tr) \<Rightarrow>
                  (x, w'', Invoke state (Inl e) w' # Sleep (retry_delay self) # tr)))
      else (Exhausted state, w, []))"
  by pat_completeness auto
termination
  by (relation "measure (\<lambda>(self, attempt, state, w). nat (max_retries self - attempt))") auto

declare retry_loop.simps [simp del]

text \<open>The message \<^verbatim>\<open>f"Failed after {self._max_retries} retries"\<close>.\<close>

definition retry_status_message :: "int \<Rightarrow> string" where
  "retry_status_message n = ''Failed after '' @ py_str (PInt n) @ '' retries''"

text \<open>The \<^verbatim>\<open>state.update\<close> after the loop, which writes into the dict that \<open>state\<close>
  refers to.\<close>

definition mark_failed :: "'e RetryAgent \<Rightarrow> ref \<Rightarrow> 'e world \<Rightarrow> 'e world" where
  "mark_failed self state w =
     w\<lparr>heap := (heap w)(state := dict_update (heap w state)
        [(failure_key self, PStr ''failed''),
         (''retry_status'', PStr (retry_status_message (max_retries self)))])\<rparr>"

text \<open>\<^verbatim>\<open>RetryAgent._run\<close>: the returned reference, the world left, and the events.\<close>

definition RetryAgent_run ::
  "'e RetryAgent \<Rightarrow> ref \<Rightarrow> 'e world \<Rightarrow> ref \<times> 'e world \<times> 'e event list" where
  "RetryAgent_run self input w =
     (case retry_loop self 0 input w of
        (Succeeded state, w', tr) \<Rightarrow> (state, w', tr)
      | (Exhausted state, w', tr) \<Rightarrow> (state, mark_failed self state w', tr))"

text \<open>\<^verbatim>\<open>RetryAgent.invoke\<close> passes its input to \<^verbatim>\<open>_run\<close>; this makes the wrapper a step.\<close>

definition RetryAgent_invoke :: "'e RetryAgent \<Rightarrow> 'e step" where
  "RetryAgent_invoke self input w =
     (case RetryAgent_run self input w of (state, w', tr) \<Rightarrow> (Inr state, w'))"

subsection \<open>Reading the record of a run\<close>

text \<open>A call of the target: the reference it was given, its outcome, the world it left.\<close>

type_synonym 'e call = "ref \<times> (pyexc + ref) \<times> 'e world"

fun calls :: "'e event list \<Rightarrow> 'e call list" where
  "calls [] = []"
| "calls (Invoke a r w # es) = (a, r, w) # calls es"
| "calls (Sleep d # es) = calls es"

fun sleeps :: "'e event list \<Rightarrow> nat list" where
  "sleeps [] = []"
| "sleeps (Invoke a r w # es) = sleeps es"
| "sleeps (Sleep d # es) = d # sleeps es"

definition arg_of :: "'e call \<Rightarrow> ref" where
  "arg_of c = fst c"

definition world_after :: "'e call \<Rightarrow> 'e world" where
  "world_after c = snd (snd c)"

fun raised :: "'e call \<Rightarrow> bool" where
  "raised (a, Inl e, w) = True"
| "raised (a, Inr s, w) = False"

text \<open>The call returned a state whose \<open>failure_key\<close> entry equals \<open>success_value\<close>: the
  test \<^verbatim>\<open>state.get(self._failure_key) == self._success_value\<close>, on the heap the call left.\<close>

fun succeeded :: "'e RetryAgent \<Rightarrow> 'e call \<Rightarrow> bool" where
  "succeeded self (a, Inr s, w) =
     py_eq (dict_get (heap w s) (failure_key self)) (success_value self)"
| "succeeded self (a, Inl e, w) = False"

text \<open>The value of the variable \<open>state\<close> after a call: the returned reference, or the
  argument again when the call raised (the assignment did not happen).\<close>

fun carried :: "'e call \<Rightarrow> ref" where
  "carried (a, Inr s, w) = s"
| "carried (a, Inl e, w) = a"

text \<open>\<open>chain t s w cs\<close>: the calls \<open>cs\<close> are consecutive invocations of \<open>t\<close>, the first on
  \<open>s\<close> in world \<open>w\<close>, each later one on the state carried over from the one before, in the
  world the one before left.\<close>

fun chain :: "'e step \<Rightarrow> ref \<Rightarrow> 'e world \<Rightarrow> 'e call list \<Rightarrow> bool" where
  "chain t s w [] = True"
| "chain t s w (c # cs) =
     (arg_of c = s \<and> t s w = snd c \<and> chain t (carried c) (world_after c) cs)"

text \<open>The reference returned by the most recent call that did not raise, or \<open>input\<close> when
  every call raised.\<close>

fun last_returned :: "ref \<Rightarrow> 'e call list \<Rightarrow> ref" where
  "last_returned input [] = input"
| "last_returned input ((a, Inr s, w) # cs) = last_returned s cs"
| "last_returned input ((a, Inl e, w) # cs) = last_returned input cs"

text \<open>The world in which call number \<open>i\<close> (from 0) starts; for \<open>i = length cs\<close>, the world
  after the last call.\<close>

definition world_before :: "'e world \<Rightarrow> 'e call list \<Rightarrow> nat \<Rightarrow> 'e world" where
  "world_before w cs i = (if i = 0 then w else world_after (cs ! (i - 1)))"

text \<open>The run left the loop through its condition, all attempts used up.\<close>

definition exhausts :: "'e RetryAgent \<Rightarrow> ref \<Rightarrow> 'e world \<Rightarrow> bool" where
  "exhausts self input w =
     (case retry_loop self 0 input w of (Exhausted s, w', tr) \<Rightarrow> True | _ \<Rightarrow> False)"

text \<open>The three components of what a run gives: the returned reference, the world it
  leaves, and the recorded events; and the contents of the returned dict.\<close>

definition returned_state :: "'e RetryAgent \<Rightarrow> ref \<Rightarrow> 'e world \<Rightarrow> ref" where
  "returned_state self input w = fst (RetryAgent_run self input w)"

definition final_world :: "'e RetryAgent \<Rightarrow> ref \<Rightarrow> 'e world \<Rightarrow> 'e world" where
  "final_world self input w = fst (snd (RetryAgent_run self input w))"

definition recorded :: "'e RetryAgent \<Rightarrow> ref \<Rightarrow> 'e world \<Rightarrow> 'e event list" where
  "recorded self input w = snd (snd (RetryAgent_run self input w))"

definition returned_dict :: "'e RetryAgent \<Rightarrow> ref \<Rightarrow> 'e world \<Rightarrow> dict" where
  "returned_dict self input w = heap (final_world self input w) (returned_state self input w)"

subsection \<open>Example targets\<close>

text \<open>The external world of the examples is a counter of the invocations made so far.\<close>

definition world0 :: "nat world" where
  "world0 = \<lparr>heap = (\<lambda>r. Map.empty), ext = 0\<rparr>"

text \<open>Raises on its first \<open>n\<close> invocations; afterwards writes \<open>''success''\<close> under \<open>key\<close>
  into the dict it was given and returns it.\<close>

definition flaky_target :: "nat \<Rightarrow> string \<Rightarrow> nat step" where
  "flaky_target n key r w =
     (if ext w < n then (Inl (PyExc ''RuntimeError'' ''boom''), w\<lparr>ext := Suc (ext w)\<rparr>)
      else (Inr r, w\<lparr>heap := (heap w)(r := (heap w r)(key \<mapsto> PStr ''success'')),
                       ext := Suc (ext w)\<rparr>))"

text \<open>Returns the dict it was given, untouched.\<close>

definition idle_target :: "nat step" where
  "idle_target r w = (Inr r, w\<lparr>ext := Suc (ext w)\<rparr>)"

text \<open>Writes into the dict it was given and then raises.\<close>

definition scribbling_target :: "nat step" where
  "scribbling_target r w =
     (Inl (PyExc ''RuntimeError'' ''boom''),
      w\<lparr>heap := (heap w)(r := (heap w r)(''x'' \<mapsto> PInt 1)), ext := Suc (ext w)\<rparr>)"

definition retry_example :: "nat step \<Rightarrow> int \<Rightarrow> string \<Rightarrow> nat RetryAgent" where
  "retry_example t n key =
     \<lparr>target_agent = t, max_retries = n, retry_delay = 2, failure_key = key,
      success_value = PStr ''success''\<rparr>"

text \<open>Scenario D of the specification: two failing attempts, then success, under
  \<open>max_retries = 3\<close>.\<close>

definition agent_flaky3 :: "nat RetryAgent" where
  "agent_flaky3 = retry_example (flaky_target 2 ''status'') 3 ''status''"

text \<open>Scenario E: a target that never reports success, under \<open>max_retries = 2\<close>.\<close>

definition agent_idle2 :: "nat RetryAgent" where
  "agent_idle2 = retry_example idle_target 2 ''status''"



text \<open>A wrapper whose \<open>failure_key\<close> is the key of the exhaustion message.\<close>

definition agent_collide :: "nat RetryAgent" where
  "agent_collide = retry_example idle_target 1 ''retry_status''"

definition agent_scribble1 :: "nat RetryAgent" where
  "agent_scribble1 = retry_example scribbling_target 1 ''status''"

definition agent_scribble2 :: "nat RetryAgent" where
  "agent_scribble2 = retry_example scribbling_target 2 ''status''"

section \<open>The workflow graph of the driver\<close>

subsection \<open>Routers\<close>

text \<open>\<^verbatim>\<open>v in [x1, x2, ...]\<close> compares \<open>v\<close> with the elements by \<^verbatim>\<open>==\<close>.\<close>

definition py_in :: "pyval \<Rightarrow> pyval list \<Rightarrow> bool" where
  "py_in v xs = list_ex (\<lambda>x. py_eq x v) xs"

text \<open>The routers defined inside \<^verbatim>\<open>build_graph\<close>.  They read the dict; \<open>Inl\<close> is the
  \<^verbatim>\<open>ValueError\<close> of the last branch.\<close>

definition repo_check_router :: "dict \<Rightarrow> pyexc + string" where
  "repo_check_router state =
     (if py_eq (dict_get state ''repo_check_status'') (PStr ''success'')
      then Inr ''clone_new_repo''
      else if py_in (dict_get state ''repo_check_status'')
                [PStr ''branch_not_found'', PStr ''failed'']
      then Inr ''create_remote_repo''
      else Inl (PyExc ''ValueError''
                 (''Unknown repo_check_status: '' @
                    py_str (dict_get state ''repo_check_status''))))"

definition coverage_check_router :: "dict \<Rightarrow> pyexc + string" where
  "coverage_check_router state =
     (if py_in (dict_get state ''coverage_status'') [PStr ''below_threshold'', PStr ''failed'']
      then Inr ''generate_tests''
      else if py_eq (dict_get state ''coverage_status'') (PStr ''success'')
      then Inr ''generate_readme''
      else Inl (PyExc ''ValueError''
                 (''Unknown coverage_status: '' @ py_str (dict_get state ''coverage_status''))))"

subsection \<open>The graph under construction\<close>

text \<open>What the calls of \<^verbatim>\<open>build_graph\<close> on the \<^verbatim>\<open>StateGraph\<close> object record: the named
  nodes, the outgoing edge of a node (static, or conditional with its router), the entry
  point and the finish point.  Each call appends to what is there.\<close>

datatype edge = Static string | Conditional "dict \<Rightarrow> pyexc + string"

record 'e StateGraph =
  nodes :: "(string \<times> 'e step) list"
  edges :: "(string \<times> edge) list"
  entry_point :: "string option"
  finish_point :: "string option"

definition empty_graph :: "'e StateGraph" where
  "empty_graph = \<lparr>nodes = [], edges = [], entry_point = None, finish_point = None\<rparr>"

definition add_node :: "string \<Rightarrow> 'e step \<Rightarrow> 'e StateGraph \<Rightarrow> 'e StateGraph" where
  "add_node name agent g = g\<lparr>nodes := nodes g @ [(name, agent)]\<rparr>"

definition add_edge :: "string \<Rightarrow> string \<Rightarrow> 'e StateGraph \<Rightarrow> 'e StateGraph" where
  "add_edge a b g = g\<lparr>edges := edges g @ [(a, Static b)]\<rparr>"

definition add_conditional_edges ::
  "string \<Rightarrow> (dict \<Rightarrow> pyexc + string) \<Rightarrow> 'e StateGraph \<Rightarrow> 'e StateGraph" where
  "add_conditional_edges a router g = g\<lparr>edges := edges g @ [(a, Conditional router)]\<rparr>"

definition set_entry_point :: "string \<Rightarrow> 'e StateGraph \<Rightarrow> 'e StateGraph" where
  "set_entry_point a g = g\<lparr>entry_point := Some a\<rparr>"

definition set_finish_point :: "string \<Rightarrow> 'e StateGraph \<Rightarrow> 'e StateGraph" where
  "set_finish_point a g = g\<lparr>finish_point := Some a\<rparr>"

text \<open>The eight core agents are collaborators outside the orchestration code; they are
  parameters of the construction.\<close>

record 'e agents =
  check_remote_repo_agent :: "'e step"
  create_remote_repo_agent :: "'e step"
  clone_new_repo_agent :: "'e step"
  generate_code_agent :: "'e step"
  generate_tests_agent :: "'e step"
  generate_coverage_agent :: "'e step"
  generate_readme_agent :: "'e step"
  git_commit_push_agent :: "'e step"

definition retry_generate_code_agent :: "'e agents \<Rightarrow> 'e RetryAgent" where
  "retry_generate_code_agent ag =
     \<lparr>target_agent = generate_code_agent ag, max_retries = 3, retry_delay = 2,
      failure_key = ''code_generation_status'', success_value = PStr ''success''\<rparr>"

definition retry_generate_tests_agent :: "'e agents \<Rightarrow> 'e RetryAgent" where
  "retry_generate_tests_agent ag =
     \<lparr>target_agent = generate_tests_agent ag, max_retries = 3, retry_delay = 2,
      failure_key = ''test_generation_status'', success_value = PStr ''success''\<rparr>"

text \<open>\<^verbatim>\<open>build_graph\<close>, call by call.  The call
  \<^verbatim>\<open>graph.add_conditional_edges("check_coverage", coverage_check_router)\<close> is commented out
  in the source and therefore absent here.\<close>

definition build_graph :: "'e agents \<Rightarrow> 'e StateGraph" where
  "build_graph ag =
     (set_finish_point ''git_commit_push''
      (set_entry_point ''check_remote_repo''
      (add_edge ''generate_readme'' ''git_commit_push''
      (add_edge ''check_coverage'' ''generate_readme''
      (add_edge ''generate_tests'' ''check_coverage''
      (add_edge ''generate_code'' ''generate_tests''
      (add_edge ''clone_new_repo'' ''generate_code''
      (add_edge ''create_remote_repo'' ''clone_new_repo''
      (add_conditional_edges ''check_remote_repo'' repo_check_router
      (add_node ''git_commit_push'' (git_commit_push_agent ag)
      (add_node ''generate_readme'' (generate_readme_agent ag)
      (add_node ''check_coverage'' (generate_coverage_agent ag)
      (add_node ''generate_tests'' (RetryAgent_invoke (retry_generate_tests_agent ag))
      (add_node ''generate_code'' (RetryAgent_invoke (retry_generate_code_agent ag))
      (add_node ''clone_new_repo'' (clone_new_repo_agent ag)
      (add_node ''create_remote_repo'' (create_remote_repo_agent ag)
      (add_node ''check_remote_repo'' (check_remote_repo_agent ag)
       empty_graph)))))))))))))))))"

subsection \<open>The engine\<close>

text \<open>How a run of the engine ends: the finish step has returned, or the run is aborted.\<close>

datatype abort =
    StepFault string pyexc
  | UnroutableState string pyexc
  | NoSuccessor string
  | UnknownStep string
  | NoEntryPoint


text \<open>Modelled from the spec: the engine that executes the compiled graph is the graph
  library, which is not part of the sources.  Section 4.4 gives its transition rule: from
  step \<open>S\<close> with resulting state \<open>\<sigma>\<close> the next step is the static successor of \<open>S\<close>, or
  \<open>Router_S(\<sigma>)\<close> if \<open>S\<close> has a conditional edge; a router that cannot resolve a successor
  aborts the run with an unroutable-state fault naming the step.\<close>

definition next_step :: "'e StateGraph \<Rightarrow> string \<Rightarrow> dict \<Rightarrow> abort + string" where
  "next_step g n state =
     (case map_of (edges g) n of
        None \<Rightarrow> Inl (NoSuccessor n)
      | Some (Static n') \<Rightarrow> Inr n'
      | Some (Conditional router) \<Rightarrow>
          (case router state of
             Inl e \<Rightarrow> Inl (UnroutableState n e)
           | Inr n' \<Rightarrow> Inr n'))"






subsection \<open>Example agents\<close>



section \<open>GenerateCoverageAgent\<close>

subsection \<open>Parsing the coverage report\<close>













subsection \<open>The agent\<close>













subsection \<open>The initial state of the driver\<close>





section \<open>Properties of the retry loop\<close>

lemma retry_loop_done:
  "\<not> attempt < max_retries self \<Longrightarrow> retry_loop self attempt state w = (Exhausted state, w, [])"
  by (simp add: retry_loop.simps)

lemma retry_loop_chain:
  "retry_loop self attempt state w = (x, w', tr) \<Longrightarrow>
     chain (target_agent self) state w (calls tr)"
proof (induction self attempt state w arbitrary: x w' tr rule: retry_loop.induct)
  case (1 self attempt state w)
  show ?case
  proof (cases "attempt < max_retries self")
    case False
    with "1.prems" show ?thesis by (simp add: retry_loop_done)
  next
    case True
    show ?thesis using "1.prems" "1.IH" True
      apply (subst (asm) retry_loop.simps)
      apply (auto simp: world_after_def arg_of_def split: prod.splits sum.splits if_splits)
      done
  qed
qed

lemma retry_loop_bound:
  "retry_loop self attempt state w = (x, w', tr) \<Longrightarrow> attempt \<le> max_retries self \<Longrightarrow>
     int (length (calls tr)) \<le> max_retries self - attempt"
proof (induction self attempt state w arbitrary: x w' tr rule: retry_loop.induct)
  case (1 self attempt state w)
  show ?case
  proof (cases "attempt < max_retries self")
    case False
    with "1.prems" show ?thesis by (simp add: retry_loop_done)
  next
    case True
    show ?thesis using "1.prems" "1.IH" True
      apply (subst (asm) retry_loop.simps)
      apply (fastforce split: prod.splits sum.splits if_splits)
      done
  qed
qed

lemma retry_loop_Succeeded:
  "retry_loop self attempt state w = (Succeeded s, w', tr) \<Longrightarrow>
     calls tr \<noteq> [] \<and> succeeded self (last (calls tr)) \<and>
     (\<exists>a. last (calls tr) = (a, Inr s, w')) \<and>
     (\<forall>c \<in> set (butlast (calls tr)). \<not> succeeded self c) \<and>
     length (sleeps tr) + 1 = length (calls tr)"
proof (induction self attempt state w arbitrary: s w' tr rule: retry_loop.induct)
  case (1 self attempt state w)
  show ?case
  proof (cases "attempt < max_retries self")
    case False
    with "1.prems" show ?thesis by (simp add: retry_loop_done)
  next
    case True
    show ?thesis using "1.prems" "1.IH" True
      apply (subst (asm) retry_loop.simps)
      apply (auto split: prod.splits sum.splits if_splits)
      done
  qed
qed

lemma retry_loop_Exhausted:
  "retry_loop self attempt state w = (Exhausted s, w', tr) \<Longrightarrow>
     (\<forall>c \<in> set (calls tr). \<not> succeeded self c) \<and>
     s = last_returned state (calls tr) \<and>
     w' = world_before w (calls tr) (length (calls tr)) \<and>
     sleeps tr = replicate (length (calls tr)) (retry_delay self) \<and>
     (attempt \<le> max_retries self \<longrightarrow> int (length (calls tr)) = max_retries self - attempt)"
proof (induction self attempt state w arbitrary: s w' tr rule: retry_loop.induct)
  case (1 self attempt state w)
  show ?case
  proof (cases "attempt < max_retries self")
    case False
    with "1.prems" show ?thesis by (simp add: retry_loop_done world_before_def)
  next
    case True
    show ?thesis using "1.prems" "1.IH" True
      apply (subst (asm) retry_loop.simps)
      apply (auto simp: world_before_def world_after_def split: prod.splits sum.splits if_splits)
      done
  qed
qed

lemma chain_nth:
  "chain t s w cs \<Longrightarrow> i < length cs \<Longrightarrow>
     arg_of (cs ! i) = last_returned s (take i cs) \<and>
     snd (cs ! i) = t (arg_of (cs ! i)) (world_before w cs i)"
proof (induction cs arbitrary: s w i)
  case Nil
  then show ?case by simp
next
  case (Cons c cs)
  show ?case
  proof (cases i)
    case 0
    with Cons.prems show ?thesis by (simp add: world_before_def)
  next
    case (Suc j)
    obtain a r w1 where c: "c = (a, r, w1)" by (cases c)
    from Cons.prems Suc have ch: "chain t (carried c) (world_after c) cs" and j: "j < length cs"
      by simp_all
    from Cons.IH [OF ch j]
    have ih: "arg_of (cs ! j) = last_returned (carried c) (take j cs)"
      "snd (cs ! j) = t (arg_of (cs ! j)) (world_before (world_after c) cs j)"
      by simp_all
    have lr: "last_returned s (take i (c # cs)) = last_returned (carried c) (take j cs)"
      using Cons.prems Suc c by (cases r) (simp_all add: arg_of_def)
    have wb: "world_before w (c # cs) i = world_before (world_after c) cs j"
      using Suc by (cases j) (simp_all add: world_before_def)
    show ?thesis using ih lr wb Suc by simp
  qed
qed

lemma only_last_succeeds:
  assumes "\<forall>c \<in> set (butlast cs). \<not> succeeded self c" "k < length cs" "succeeded self (cs ! k)"
  shows "length cs = Suc k"
proof (rule ccontr)
  assume "length cs \<noteq> Suc k"
  with assms(2) have "k < length (butlast cs)" by simp
  then have "butlast cs ! k \<in> set (butlast cs)" by (rule nth_mem)
  moreover have "butlast cs ! k = cs ! k" using \<open>k < length (butlast cs)\<close> by (rule nth_butlast)
  ultimately show False using assms(1,3) by auto
qed

text \<open>
  Claim C1.  For every target, every \<open>max_retries\<close> of at least 1 and every input state,
  \<^verbatim>\<open>RetryAgent._run\<close> invokes the target at most \<open>max_retries\<close> times, and the recorded
  calls are consecutive invocations of the target.  If call number \<open>k + 1\<close> returns a state
  whose \<open>failure_key\<close> entry equals \<open>success_value\<close>, then exactly \<open>k + 1\<close> calls are made,
  and \<^verbatim>\<open>_run\<close> returns the reference that call returned, in the world that call left.
\<close>

theorem retry_invocation_bound:
  assumes "1 \<le> max_retries self"
  shows "chain (target_agent self) input w (calls (recorded self input w)) \<and>
         int (length (calls (recorded self input w))) \<le> max_retries self \<and>
         (\<forall>k < length (calls (recorded self input w)).
            succeeded self (calls (recorded self input w) ! k) \<longrightarrow>
              length (calls (recorded self input w)) = Suc k \<and>
              snd (calls (recorded self input w) ! k) =
                (Inr (returned_state self input w), final_world self input w))"
proof -
  obtain x w1 tr where loop: "retry_loop self 0 input w = (x, w1, tr)"
    by (cases "retry_loop self 0 input w")
  have ch: "chain (target_agent self) input w (calls tr)"
    using loop by (rule retry_loop_chain)
  have bd: "int (length (calls tr)) \<le> max_retries self"
    using retry_loop_bound [OF loop] assms by simp
  show ?thesis
  proof (cases x)
    case (Succeeded s)
    from retry_loop_Succeeded [OF loop [unfolded Succeeded]]
    obtain a where ne: "calls tr \<noteq> []" and la: "last (calls tr) = (a, Inr s, w1)"
      and bl: "\<forall>c \<in> set (butlast (calls tr)). \<not> succeeded self c" by blast
    have "length (calls tr) = Suc k \<and> snd (calls tr ! k) = (Inr s, w1)"
      if k: "k < length (calls tr)" and sk: "succeeded self (calls tr ! k)" for k
    proof -
      have len: "length (calls tr) = Suc k" using bl k sk by (rule only_last_succeeds)
      then have "calls tr ! k = last (calls tr)" using ne by (simp add: last_conv_nth)
      with la len show ?thesis by simp
    qed
    with ch bd loop Succeeded show ?thesis
      by (simp add: RetryAgent_run_def recorded_def returned_state_def final_world_def)
  next
    case (Exhausted s)
    from retry_loop_Exhausted [OF loop [unfolded Exhausted]]
    have "\<forall>c \<in> set (calls tr). \<not> succeeded self c" by blast
    then have "\<forall>k < length (calls tr). \<not> succeeded self (calls tr ! k)" by simp
    with ch bd loop Exhausted show ?thesis
      by (simp add: RetryAgent_run_def recorded_def returned_state_def final_world_def)
  qed
qed

text \<open>A target that raises twice and then succeeds, under \<open>max_retries = 3\<close>: three
  calls, the third one successful and its state returned.\<close>

theorem retry_invocation_bound_witness:
  "1 \<le> max_retries agent_flaky3 \<and>
   length (calls (recorded agent_flaky3 0 world0)) = 3 \<and>
   map raised (calls (recorded agent_flaky3 0 world0)) = [True, True, False] \<and>
   succeeded agent_flaky3 (calls (recorded agent_flaky3 0 world0) ! 2) \<and>
   snd (calls (recorded agent_flaky3 0 world0) ! 2) =
     (Inr (returned_state agent_flaky3 0 world0), final_world agent_flaky3 0 world0) \<and>
   returned_dict agent_flaky3 0 world0 ''status'' = Some (PStr ''success'')"
  using retry_invocation_bound [of agent_flaky3 0 world0]
  by (simp add: agent_flaky3_def RetryAgent_run_def retry_example_def flaky_target_def
      world0_def retry_loop.simps dict_get_def recorded_def returned_state_def
      final_world_def returned_dict_def)

lemmas run_defs = RetryAgent_run_def recorded_def returned_state_def final_world_def
  returned_dict_def
lemmas example_defs = retry_example_def flaky_target_def idle_target_def scribbling_target_def
  world0_def

lemma retry_loop_forward:
  "chain (target_agent self) state w cs \<Longrightarrow> cs \<noteq> [] \<Longrightarrow>
   \<forall>c \<in> set (butlast cs). \<not> succeeded self c \<Longrightarrow> succeeded self (last cs) \<Longrightarrow>
   attempt + int (length cs) \<le> max_retries self \<Longrightarrow>
   \<exists>tr. retry_loop self attempt state w = (Succeeded (carried (last cs)), world_after (last cs), tr)
        \<and> calls tr = cs"
proof (induction cs arbitrary: attempt state w)
  case Nil
  then show ?case by simp
next
  case (Cons c cs)
  obtain a r w1 where c: "c = (a, r, w1)" by (cases c)
  from Cons.prems(1) c have a: "a = state" and t: "target_agent self state w = (r, w1)"
    and ch: "chain (target_agent self) (carried c) w1 cs"
    by (auto simp add: arg_of_def world_after_def)
  from Cons.prems(5) have lt: "attempt < max_retries self" by simp
  show ?case
  proof (cases "cs = []")
    case True
    with Cons.prems(4) c have "succeeded self (a, r, w1)" by simp
    then obtain s where r: "r = Inr s"
      and ok: "py_eq (dict_get (heap w1 s) (failure_key self)) (success_value self)"
      by (cases r) simp_all
    show ?thesis using True c a r ok t lt
      by (subst retry_loop.simps) (simp add: world_after_def)
  next
    case False
    with Cons.prems(3) have nc: "\<not> succeeded self c" and
      bl: "\<forall>c \<in> set (butlast cs). \<not> succeeded self c" by simp_all
    from Cons.prems(4) False have la: "succeeded self (last cs)" by simp
    from Cons.prems(5) have le: "(attempt + 1) + int (length cs) \<le> max_retries self" by simp
    from Cons.IH [OF _ False bl la le, of "carried c" w1] ch
    obtain tr where tr: "retry_loop self (attempt + 1) (carried c) w1 =
        (Succeeded (carried (last cs)), world_after (last cs), tr)" "calls tr = cs"
      by (auto simp: world_after_def)
    show ?thesis
    proof (cases r)
      case (Inl e)
      with tr c a t lt False show ?thesis
        by (subst retry_loop.simps) simp
    next
      case (Inr s)
      with nc c have "\<not> py_eq (dict_get (heap w1 s) (failure_key self)) (success_value self)"
        by simp
      with Inr tr c a t lt False show ?thesis
        by (subst retry_loop.simps) simp
    qed
  qed
qed

lemma raised_not_succeeded: "raised c \<Longrightarrow> \<not> succeeded self c"
  by (cases "(self, c)" rule: succeeded.cases) simp_all

lemma succeeded_Inr: "succeeded self c \<Longrightarrow> \<exists>s. snd c = (Inr s, world_after c) \<and> carried c = s"
  by (cases "(self, c)" rule: succeeded.cases) (simp_all add: world_after_def)

lemma last_returned_all_raised:
  "\<forall>c \<in> set cs. raised c \<Longrightarrow> last_returned input cs = input"
  by (induction input cs rule: last_returned.induct) simp_all

text \<open>
  Claim C3.  Let \<open>max_retries\<close> be \<open>N \<ge> 2\<close>, and let \<open>cs\<close> be the \<open>N\<close> consecutive
  invocations of the target from the input state, the first \<open>N - 1\<close> of which raise and the
  last of which returns a state whose \<open>failure_key\<close> entry equals \<open>success_value\<close>.  Then
  \<^verbatim>\<open>_run\<close> makes exactly these calls and returns the state of the last one, in the world
  that call left.  Every exception of the target is taken by the handler of the loop (the
  \<open>Inl\<close> branch of \<open>retry_loop\<close>), so that \<^verbatim>\<open>_run\<close> has a returned state and no raised
  exception.
\<close>

theorem retry_swallows_faults:
  assumes "2 \<le> max_retries self"
    and "chain (target_agent self) input w cs"
    and "int (length cs) = max_retries self"
    and "\<forall>c \<in> set (butlast cs). raised c"
    and "succeeded self (last cs)"
  shows "\<exists>s. last cs = (input, Inr s, world_after (last cs)) \<and>
             returned_state self input w = s \<and>
             final_world self input w = world_after (last cs) \<and>
             calls (recorded self input w) = cs"
proof -
  from assms(1,3) have ne: "cs \<noteq> []" by auto
  have bl: "\<forall>c \<in> set (butlast cs). \<not> succeeded self c"
    using assms(4) raised_not_succeeded by blast
  from retry_loop_forward [OF assms(2) ne bl assms(5), of 0] assms(3)
  obtain tr where tr: "retry_loop self 0 input w =
      (Succeeded (carried (last cs)), world_after (last cs), tr)" "calls tr = cs"
    by auto
  from succeeded_Inr [OF assms(5)] obtain s where
    s: "snd (last cs) = (Inr s, world_after (last cs))" "carried (last cs) = s" by blast
  have "arg_of (last cs) = last_returned input (take (length cs - 1) cs)"
    using chain_nth [OF assms(2), of "length cs - 1"] ne by (simp add: last_conv_nth)
  also have "\<dots> = input"
    using assms(4) by (intro last_returned_all_raised) (simp add: butlast_conv_take)
  finally have "fst (last cs) = input" by (simp add: arg_of_def)
  with s have "last cs = (input, Inr s, world_after (last cs))"
    by (cases "last cs") simp
  with tr s show ?thesis by (auto simp: run_defs)
qed

text \<open>The target of Scenario D raises twice and succeeds on the third attempt of three.\<close>

theorem retry_swallows_faults_witness:
  "2 \<le> max_retries agent_flaky3 \<and>
   chain (target_agent agent_flaky3) 0 world0 (calls (recorded agent_flaky3 0 world0)) \<and>
   int (length (calls (recorded agent_flaky3 0 world0))) = max_retries agent_flaky3 \<and>
   map raised (butlast (calls (recorded agent_flaky3 0 world0))) = [True, True] \<and>
   succeeded agent_flaky3 (last (calls (recorded agent_flaky3 0 world0))) \<and>
   returned_state agent_flaky3 0 world0 = 0 \<and>
   final_world agent_flaky3 0 world0 = world_after (last (calls (recorded agent_flaky3 0 world0)))"
  using retry_swallows_faults [of agent_flaky3 0 world0 "calls (recorded agent_flaky3 0 world0)"]
  by (simp add: agent_flaky3_def run_defs example_defs retry_loop.simps dict_get_def
      arg_of_def world_after_def)


lemma all_failed_Exhausted:
  assumes "retry_loop self attempt state w = (x, w', tr)"
    and "\<forall>c \<in> set (calls tr). \<not> succeeded self c"
  shows "\<exists>s. x = Exhausted s"
proof (cases x)
  case (Succeeded s)
  from retry_loop_Succeeded [OF assms(1) [unfolded Succeeded]]
  have "calls tr \<noteq> []" "succeeded self (last (calls tr))" by simp_all
  with assms(2) show ?thesis using last_in_set by blast
next
  case (Exhausted s)
  then show ?thesis by simp
qed

lemma exhausts_iff:
  "exhausts self input w \<longleftrightarrow> (\<forall>c \<in> set (calls (recorded self input w)). \<not> succeeded self c)"
proof -
  obtain x w1 tr where loop: "retry_loop self 0 input w = (x, w1, tr)"
    by (cases "retry_loop self 0 input w")
  have tr: "recorded self input w = tr"
    using loop by (cases x) (simp_all add: run_defs)
  show ?thesis
  proof (cases x)
    case (Succeeded s)
    from retry_loop_Succeeded [OF loop [unfolded Succeeded]]
    have "calls tr \<noteq> []" "succeeded self (last (calls tr))" by simp_all
    then have "\<exists>c \<in> set (calls tr). succeeded self c" using last_in_set by blast
    with loop Succeeded tr show ?thesis by (simp add: exhausts_def)
  next
    case (Exhausted s)
    from retry_loop_Exhausted [OF loop [unfolded Exhausted]]
    have "\<forall>c \<in> set (calls tr). \<not> succeeded self c" by blast
    with loop Exhausted tr show ?thesis by (simp add: exhausts_def)
  qed
qed

lemma exhausts_run:
  assumes "exhausts self input w"
  shows "returned_state self input w = last_returned input (calls (recorded self input w))"
    and "final_world self input w =
           mark_failed self (returned_state self input w)
             (world_before w (calls (recorded self input w))
                (length (calls (recorded self input w))))"
    and "sleeps (recorded self input w) =
           replicate (length (calls (recorded self input w))) (retry_delay self)"
    and "0 \<le> max_retries self \<Longrightarrow>
           int (length (calls (recorded self input w))) = max_retries self"
proof -
  obtain x w1 tr where loop: "retry_loop self 0 input w = (x, w1, tr)"
    by (cases "retry_loop self 0 input w")
  with assms obtain s where x: "x = Exhausted s"
    by (cases x) (simp_all add: exhausts_def)
  note ex = retry_loop_Exhausted [OF loop [unfolded x]]
  have r: "RetryAgent_run self input w = (s, mark_failed self s w1, tr)"
    using loop x by (simp add: RetryAgent_run_def)
  show "returned_state self input w = last_returned input (calls (recorded self input w))"
    using r ex by (simp add: returned_state_def recorded_def)
  show "final_world self input w =
           mark_failed self (returned_state self input w)
             (world_before w (calls (recorded self input w))
                (length (calls (recorded self input w))))"
    using r ex by (simp add: returned_state_def recorded_def final_world_def)
  show "sleeps (recorded self input w) =
           replicate (length (calls (recorded self input w))) (retry_delay self)"
    using r ex by (simp add: recorded_def)
  show "int (length (calls (recorded self input w))) = max_retries self"
    if "0 \<le> max_retries self"
    using r ex that by (simp add: recorded_def)
qed

lemma mark_failed_heap:
  "heap (mark_failed self s w) s =
     (heap w s)(failure_key self \<mapsto> PStr ''failed'',
                ''retry_status'' \<mapsto> PStr (retry_status_message (max_retries self)))"
  by (simp add: mark_failed_def dict_update_def)

lemma mark_failed_other: "r \<noteq> s \<Longrightarrow> heap (mark_failed self s w) r = heap w r"
  by (simp add: mark_failed_def)

lemma mark_failed_ext: "ext (mark_failed self s w) = ext w"
  by (simp add: mark_failed_def)

lemma retry_status_message_mentions:
  "retry_status_message n \<noteq> [] \<and> sublist (show_int n) (retry_status_message n)"
  unfolding retry_status_message_def sublist_def by (simp del: append.simps) blast

text \<open>
  Claim C2, amended.  For \<open>max_retries = N \<ge> 1\<close> and a \<open>failure_key\<close> other than
  \<open>''retry_status''\<close>: if no call of the run returns a state whose \<open>failure_key\<close> entry equals
  \<open>success_value\<close>, then all \<open>N\<close> attempts are made and the returned dict holds
  \<open>''failed''\<close> under \<open>failure_key\<close> and, under \<open>''retry_status''\<close>, the message
  \<^verbatim>\<open>Failed after N retries\<close>, which is not empty and contains the decimal numeral of \<open>N\<close>.
\<close>

theorem retry_exhaustion_report:
  assumes "1 \<le> max_retries self"
    and "failure_key self \<noteq> ''retry_status''"
    and "\<forall>c \<in> set (calls (recorded self input w)). \<not> succeeded self c"
  shows "int (length (calls (recorded self input w))) = max_retries self \<and>
         returned_dict self input w (failure_key self) = Some (PStr ''failed'') \<and>
         returned_dict self input w ''retry_status'' =
           Some (PStr (''Failed after '' @ show_int (max_retries self) @ '' retries'')) \<and>
         ''Failed after '' @ show_int (max_retries self) @ '' retries'' \<noteq> [] \<and>
         sublist (show_int (max_retries self))
           (''Failed after '' @ show_int (max_retries self) @ '' retries'')"
proof -
  from assms(3) have ex: "exhausts self input w" by (simp add: exhausts_iff)
  have len: "int (length (calls (recorded self input w))) = max_retries self"
    using exhausts_run(4) [OF ex] assms(1) by simp
  have d: "returned_dict self input w =
      (heap (world_before w (calls (recorded self input w))
                (length (calls (recorded self input w)))) (returned_state self input w))
        (failure_key self \<mapsto> PStr ''failed'',
         ''retry_status'' \<mapsto> PStr (retry_status_message (max_retries self)))"
    unfolding returned_dict_def by (subst exhausts_run(2) [OF ex]) (rule mark_failed_heap)
  have m: "retry_status_message (max_retries self) =
      ''Failed after '' @ show_int (max_retries self) @ '' retries''"
    by (simp add: retry_status_message_def)
  show ?thesis
    using len d assms(2) retry_status_message_mentions [of "max_retries self"]
    unfolding m [symmetric] by simp
qed


lemmas eval_defs = run_defs example_defs retry_loop.simps dict_get_def mark_failed_def
  dict_update_def retry_status_message_def show_int_def show_nat.simps digit_char_def
  arg_of_def world_after_def world_before_def

text \<open>Scenario E: a target that never succeeds, under \<open>max_retries = 2\<close>.\<close>

theorem retry_exhaustion_report_witness:
  "1 \<le> max_retries agent_idle2 \<and> failure_key agent_idle2 \<noteq> ''retry_status'' \<and>
   map (succeeded agent_idle2) (calls (recorded agent_idle2 0 world0)) = [False, False] \<and>
   returned_dict agent_idle2 0 world0 (failure_key agent_idle2) = Some (PStr ''failed'') \<and>
   returned_dict agent_idle2 0 world0 ''retry_status'' = Some (PStr ''Failed after 2 retries'') \<and>
   sublist (show_int 2) ''Failed after 2 retries''"
proof -
  have h: "1 \<le> max_retries agent_idle2" "failure_key agent_idle2 \<noteq> ''retry_status''"
    "map (succeeded agent_idle2) (calls (recorded agent_idle2 0 world0)) = [False, False]"
    by (simp_all add: agent_idle2_def eval_defs)
  have all: "\<forall>c \<in> set (calls (recorded agent_idle2 0 world0)). \<not> succeeded agent_idle2 c"
  proof
    fix c assume "c \<in> set (calls (recorded agent_idle2 0 world0))"
    then have "succeeded agent_idle2 c \<in> set (map (succeeded agent_idle2)
        (calls (recorded agent_idle2 0 world0)))" by simp
    with h(3) show "\<not> succeeded agent_idle2 c" by simp
  qed
  have n: "max_retries agent_idle2 = 2" by (simp add: agent_idle2_def retry_example_def)
  have sh: "show_int 2 = ''2''" by (simp add: show_int_def show_nat.simps digit_char_def)
  show ?thesis
    using retry_exhaustion_report [OF h(1) h(2) all] h unfolding n sh by simp
qed

text \<open>
  Claim C2 as it is stated, for every configuration, fails when \<open>failure_key\<close> is
  \<open>''retry_status''\<close>: the dict literal of the final \<^verbatim>\<open>state.update\<close> then has the same key
  twice, the message stays, and the \<open>failure_key\<close> entry is not \<open>''failed''\<close>.
\<close>

theorem retry_exhaustion_report_counterexample:
  "1 \<le> max_retries agent_collide \<and>
   map (succeeded agent_collide) (calls (recorded agent_collide 0 world0)) = [False] \<and>
   returned_dict agent_collide 0 world0 (failure_key agent_collide)
     = Some (PStr ''Failed after 1 retries'') \<and>
   returned_dict agent_collide 0 world0 (failure_key agent_collide) \<noteq> Some (PStr ''failed'')"
  by (simp add: agent_collide_def eval_defs)






text \<open>
  Claim C8, amended.  When \<^verbatim>\<open>_run\<close> exhausts all attempts, the state it returns is the
  reference the most recent non-raising call returned (the input reference if every call
  raised), and the final update changes only the \<open>failure_key\<close> and \<open>''retry_status''\<close>
  entries of that dict: under every other key the returned dict holds what that dict held in
  the world the last call left, every other dict is as the last call left it, and so is the
  external world.  The comparison is with the heap after the last call: a call that wrote
  into the dict and then raised has left its writes there.
\<close>

theorem exhaustion_frame:
  assumes "exhausts self input w"
  shows "returned_state self input w = last_returned input (calls (recorded self input w)) \<and>
         (\<forall>k. k \<noteq> failure_key self \<and> k \<noteq> ''retry_status'' \<longrightarrow>
            returned_dict self input w k =
              heap (world_before w (calls (recorded self input w))
                      (length (calls (recorded self input w))))
                   (returned_state self input w) k) \<and>
         (\<forall>r. r \<noteq> returned_state self input w \<longrightarrow>
            heap (final_world self input w) r =
              heap (world_before w (calls (recorded self input w))
                      (length (calls (recorded self input w)))) r) \<and>
         ext (final_world self input w) =
           ext (world_before w (calls (recorded self input w))
                  (length (calls (recorded self input w))))"
proof -
  note r = exhausts_run(1,2) [OF assms]
  show ?thesis
    unfolding returned_dict_def
    apply (subst r(2), subst r(2), subst r(2))
    apply (simp add: mark_failed_heap mark_failed_other mark_failed_ext r(1) [symmetric])
    done
qed

text \<open>A target that writes \<open>''x''\<close> and raises, twice: the entry under \<open>''x''\<close> is kept by the
  final update, and the dict at reference 1 is untouched.\<close>

theorem exhaustion_frame_witness:
  "exhausts agent_scribble2 0 world0 \<and>
   returned_state agent_scribble2 0 world0 = 0 \<and>
   ''x'' \<noteq> failure_key agent_scribble2 \<and> ''x'' \<noteq> ''retry_status'' \<and>
   returned_dict agent_scribble2 0 world0 ''x'' = Some (PInt 1) \<and>
   heap (world_before world0 (calls (recorded agent_scribble2 0 world0)) 2) 0 ''x''
     = Some (PInt 1) \<and>
   (1::nat) \<noteq> returned_state agent_scribble2 0 world0 \<and>
   heap (final_world agent_scribble2 0 world0) 1 = Map.empty"
proof -
  have h: "exhausts agent_scribble2 0 world0"
    by (simp add: exhausts_def agent_scribble2_def eval_defs)
  have l: "length (calls (recorded agent_scribble2 0 world0)) = 2"
    and rs: "returned_state agent_scribble2 0 world0 = 0"
    and fk: "failure_key agent_scribble2 = ''status''"
    by (simp_all add: agent_scribble2_def eval_defs)
  have v: "heap (world_before world0 (calls (recorded agent_scribble2 0 world0)) 2) 0 ''x''
     = Some (PInt 1)"
    "heap (world_before world0 (calls (recorded agent_scribble2 0 world0)) 2) 1 = Map.empty"
    by (simp_all add: agent_scribble2_def eval_defs)
  note f = exhaustion_frame [OF h, unfolded l rs fk]
  from f have "returned_dict agent_scribble2 0 world0 ''x'' =
      heap (world_before world0 (calls (recorded agent_scribble2 0 world0)) 2) 0 ''x''"
    by simp
  moreover from f have "heap (final_world agent_scribble2 0 world0) 1 =
      heap (world_before world0 (calls (recorded agent_scribble2 0 world0)) 2) 1"
    by simp
  ultimately show ?thesis using h rs fk v by simp
qed

text \<open>
  Claim C8 as it is stated compares with the original input state when every invocation
  raised.  For a target that writes \<open>''x''\<close> into its argument and then raises, the returned
  dict holds 1 under \<open>''x''\<close>, a key other than \<open>failure_key\<close> and \<open>''retry_status''\<close>, and the
  input state held nothing there.
\<close>

theorem exhaustion_frame_counterexample:
  "exhausts agent_scribble1 0 world0 \<and>
   map raised (calls (recorded agent_scribble1 0 world0)) = [True] \<and>
   returned_state agent_scribble1 0 world0 = 0 \<and>
   ''x'' \<noteq> failure_key agent_scribble1 \<and> ''x'' \<noteq> ''retry_status'' \<and>
   returned_dict agent_scribble1 0 world0 ''x'' = Some (PInt 1) \<and>
   heap world0 0 ''x'' = None"
  by (simp add: exhausts_def agent_scribble1_def eval_defs)

lemma last_returned_snoc:
  "last_returned input (cs @ [c]) = (if raised c then last_returned input cs else carried c)"
  by (induction input cs rule: last_returned.induct) (cases c rule: raised.cases, simp_all)

text \<open>
  Claim C9, amended.  A raising attempt leaves the variable \<open>state\<close> of \<^verbatim>\<open>_run\<close> bound to
  the same dict object: the reference passed to every attempt, and used for the exhaustion
  update, is the one returned by the most recent non-raising call, or the input reference
  if no call has completed.  The contents of that dict are read from the world the previous
  call left, whether it raised or not, so they are unchanged by a raising call only if that
  call did not write into the dict.
\<close>

theorem raising_attempt_keeps_reference:
  "(\<forall>i < length (calls (recorded self input w)).
      arg_of (calls (recorded self input w) ! i) =
        last_returned input (take i (calls (recorded self input w))) \<and>
      snd (calls (recorded self input w) ! i) =
        target_agent self (arg_of (calls (recorded self input w) ! i))
          (world_before w (calls (recorded self input w)) i) \<and>
      (raised (calls (recorded self input w) ! i) \<longrightarrow>
         last_returned input (take (Suc i) (calls (recorded self input w))) =
           arg_of (calls (recorded self input w) ! i))) \<and>
   (exhausts self input w \<longrightarrow>
      returned_state self input w = last_returned input (calls (recorded self input w)) \<and>
      final_world self input w =
        mark_failed self (last_returned input (calls (recorded self input w)))
          (world_before w (calls (recorded self input w))
             (length (calls (recorded self input w)))))"
proof -
  let ?cs = "calls (recorded self input w)"
  obtain x w1 tr where loop: "retry_loop self 0 input w = (x, w1, tr)"
    by (cases "retry_loop self 0 input w")
  have tr: "recorded self input w = tr"
    using loop by (cases x) (simp_all add: run_defs)
  have ch: "chain (target_agent self) input w ?cs"
    using retry_loop_chain [OF loop] tr by simp
  have "arg_of (?cs ! i) = last_returned input (take i ?cs) \<and>
        snd (?cs ! i) = target_agent self (arg_of (?cs ! i)) (world_before w ?cs i) \<and>
        (raised (?cs ! i) \<longrightarrow> last_returned input (take (Suc i) ?cs) = arg_of (?cs ! i))"
    if i: "i < length ?cs" for i
  proof -
    note n = chain_nth [OF ch i]
    have "last_returned input (take (Suc i) ?cs) = arg_of (?cs ! i)" if "raised (?cs ! i)"
      using that n i by (simp add: take_Suc_conv_app_nth last_returned_snoc)
    with n show ?thesis by simp
  qed
  moreover have "returned_state self input w = last_returned input ?cs \<and>
      final_world self input w =
        mark_failed self (last_returned input ?cs) (world_before w ?cs (length ?cs))"
    if "exhausts self input w"
    using exhausts_run(1,2) [OF that] by simp
  ultimately show ?thesis by blast
qed

text \<open>Two raising attempts: the second gets the reference of the first, which is also
  the one returned.\<close>

theorem raising_attempt_keeps_reference_witness:
  "length (calls (recorded agent_scribble2 0 world0)) = 2 \<and>
   raised (calls (recorded agent_scribble2 0 world0) ! 0) \<and>
   arg_of (calls (recorded agent_scribble2 0 world0) ! 1) = 0 \<and>
   last_returned 0 (take 1 (calls (recorded agent_scribble2 0 world0))) = 0 \<and>
   exhausts agent_scribble2 0 world0 \<and>
   returned_state agent_scribble2 0 world0 = 0"
  using raising_attempt_keeps_reference [of agent_scribble2 0 world0]
  by (simp add: exhausts_def agent_scribble2_def eval_defs)

text \<open>
  Claim C9 as it is stated fails on the contents of the state: the first attempt raises
  after writing \<open>''x''\<close>, and the state passed to the second attempt, the input dict, holds 1
  under \<open>''x''\<close> where the original input state held nothing.
\<close>

theorem raising_attempt_counterexample:
  "raised (calls (recorded agent_scribble2 0 world0) ! 0) \<and>
   arg_of (calls (recorded agent_scribble2 0 world0) ! 0) = 0 \<and>
   arg_of (calls (recorded agent_scribble2 0 world0) ! 1) = 0 \<and>
   heap world0 0 ''x'' = None \<and>
   heap (world_before world0 (calls (recorded agent_scribble2 0 world0)) 1) 0 ''x''
     = Some (PInt 1)"
  by (simp add: agent_scribble2_def eval_defs)

section \<open>Properties of the routers and of the graph\<close>

lemma py_eq_PStr [simp]: "py_eq v (PStr s) \<longleftrightarrow> v = PStr s"
  by (cases v) auto

lemma py_eq_PStr_left [simp]: "py_eq (PStr s) v \<longleftrightarrow> v = PStr s"
  by (cases v) auto

text \<open>
  Claim C4.  For every state given to it, \<open>repo_check_router\<close> returns
  \<open>''clone_new_repo''\<close> when the \<open>''repo_check_status''\<close> entry is \<open>''success''\<close>, returns
  \<open>''create_remote_repo''\<close> when it is \<open>''branch_not_found''\<close> or \<open>''failed''\<close>, and for
  every other value, \<^verbatim>\<open>None\<close> for an absent key included, raises a \<^verbatim>\<open>ValueError\<close> (the
  unroutable-state error of the specification) whose message contains the rendering of the
  offending value; no successor is returned in that case.
\<close>

theorem repo_check_router_cases:
  "(dict_get state ''repo_check_status'' = PStr ''success'' \<longrightarrow>
      repo_check_router state = Inr ''clone_new_repo'') \<and>
   (dict_get state ''repo_check_status'' = PStr ''branch_not_found'' \<or>
    dict_get state ''repo_check_status'' = PStr ''failed'' \<longrightarrow>
      repo_check_router state = Inr ''create_remote_repo'') \<and>
   (dict_get state ''repo_check_status'' \<noteq> PStr ''success'' \<and>
    dict_get state ''repo_check_status'' \<noteq> PStr ''branch_not_found'' \<and>
    dict_get state ''repo_check_status'' \<noteq> PStr ''failed'' \<longrightarrow>
      repo_check_router state =
        Inl (PyExc ''ValueError''
              (''Unknown repo_check_status: '' @ py_str (dict_get state ''repo_check_status''))) \<and>
      sublist (py_str (dict_get state ''repo_check_status''))
        (''Unknown repo_check_status: '' @ py_str (dict_get state ''repo_check_status''))) \<and>
   (state ''repo_check_status'' = None \<longrightarrow>
      repo_check_router state = Inl (PyExc ''ValueError'' ''Unknown repo_check_status: None''))"
proof -
  have sub: "sublist v (''Unknown repo_check_status: '' @ v)" for v :: string
    unfolding sublist_def by (metis append_Nil2)
  have none: "state ''repo_check_status'' = None \<Longrightarrow>
      dict_get state ''repo_check_status'' = PNone"
    by (simp add: dict_get_def)
  show ?thesis
    using sub [of "py_str (dict_get state ''repo_check_status'')"] none
    by (auto simp: repo_check_router_def py_in_def simp del: append.simps)
qed

text \<open>Scenarios A, B and C of the specification, the status \<open>''failed''\<close>, and the state
  without the key.\<close>

theorem repo_check_router_cases_witness:
  "repo_check_router [''repo_check_status'' \<mapsto> PStr ''success''] = Inr ''clone_new_repo'' \<and>
   repo_check_router [''repo_check_status'' \<mapsto> PStr ''branch_not_found'']
     = Inr ''create_remote_repo'' \<and>
   repo_check_router [''repo_check_status'' \<mapsto> PStr ''failed''] = Inr ''create_remote_repo'' \<and>
   repo_check_router [''repo_check_status'' \<mapsto> PStr ''bogus'']
     = Inl (PyExc ''ValueError'' ''Unknown repo_check_status: bogus'') \<and>
   repo_check_router Map.empty = Inl (PyExc ''ValueError'' ''Unknown repo_check_status: None'')"
  using repo_check_router_cases [of "[''repo_check_status'' \<mapsto> PStr ''success'']"]
    repo_check_router_cases [of "[''repo_check_status'' \<mapsto> PStr ''branch_not_found'']"]
    repo_check_router_cases [of "[''repo_check_status'' \<mapsto> PStr ''failed'']"]
    repo_check_router_cases [of "[''repo_check_status'' \<mapsto> PStr ''bogus'']"]
    repo_check_router_cases [of "Map.empty"]
  by (simp add: dict_get_def)

lemmas graph_defs = build_graph_def add_node_def add_edge_def add_conditional_edges_def
  set_entry_point_def set_finish_point_def empty_graph_def

lemma build_graph_edges:
  "edges (build_graph ag) =
     [(''check_remote_repo'', Conditional repo_check_router),
      (''create_remote_repo'', Static ''clone_new_repo''),
      (''clone_new_repo'', Static ''generate_code''),
      (''generate_code'', Static ''generate_tests''),
      (''generate_tests'', Static ''check_coverage''),
      (''check_coverage'', Static ''generate_readme''),
      (''generate_readme'', Static ''git_commit_push'')]"
  by (simp add: graph_defs)



text \<open>
  Claim C5.  In the graph built by \<open>build_graph\<close> the edge of \<open>''check_coverage''\<close> is the
  static edge to \<open>''generate_readme''\<close>, so the successor of that step is
  \<open>''generate_readme''\<close> for every state, and is not \<open>''generate_tests''\<close> when
  \<open>''coverage_status''\<close> is \<open>''below_threshold''\<close>, although \<open>coverage_check_router\<close>, which
  the graph does not use, would give \<open>''generate_tests''\<close> there.
\<close>

theorem coverage_edge_unconditional:
  "map_of (edges (build_graph ag)) ''check_coverage'' = Some (Static ''generate_readme'') \<and>
   next_step (build_graph ag) ''check_coverage'' state = Inr ''generate_readme'' \<and>
   next_step (build_graph ag) ''check_coverage'' [''coverage_status'' \<mapsto> PStr ''below_threshold'']
     \<noteq> Inr ''generate_tests'' \<and>
   coverage_check_router [''coverage_status'' \<mapsto> PStr ''below_threshold'']
     = Inr ''generate_tests''"
  by (simp add: next_step_def build_graph_edges coverage_check_router_def py_in_def dict_get_def)
















section \<open>Properties of the coverage agent\<close>








end
